theory Spec2Isabelle
  imports Complex_Main "HOL-Library.AList"
begin

section \<open>Python values used by the program\<close>

text \<open>
  The program is a single Python module: a text normaliser, a tokenizer, a bag-of-words
  vectorizer, a cosine scorer, an SQLite-backed knowledge base and a threshold policy on
  top of them. Python exceptions are values of \<open>pyerror\<close>; a function that can raise
  returns \<open>pyerror + 'a\<close>.
\<close>

datatype pyerror = OverflowError | ValueError | ZeroDivisionError | OperationalError

subsection \<open>Strings\<close>

text \<open>
  A Python \<open>str\<close> is a sequence of Unicode code points; \<open>ord\<close> gives an \<open>int\<close>.
  \<open>ustr\<close> reads an ASCII literal as such a sequence.
\<close>

type_synonym codepoint = int
type_synonym ustring = "codepoint list"

definition ustr :: "string \<Rightarrow> ustring" where
  "ustr s = map of_char s"

text \<open>
  The Unicode character database is not part of the program: \<open>str.lower\<close>,
  \<open>unicodedata.normalize("NFD", _)\<close>, \<open>unicodedata.category(_) = "Mn"\<close> and the
  whitespace class shared by the regular expressions and \<open>str.strip\<close> are parameters of the model.
\<close>

record unicode_db =
  str_lower :: "ustring \<Rightarrow> ustring"
  nfd :: "ustring \<Rightarrow> ustring"
  is_Mn :: "codepoint \<Rightarrow> bool"
  is_space :: "codepoint \<Rightarrow> bool"

subsection \<open>Floats\<close>

text \<open>
  A Python \<open>float\<close> is an IEEE 754 binary64 number. A finite one is modelled by its exact
  rational value; \<open>rnd64\<close> rounds a rational to the nearest binary64 value, ties to even,
  with gradual underflow (the least exponent of a unit in the last place is \<open>-1074\<close>).
  \<open>bit_length\<close> is Python's \<open>int.bit_length\<close>, and \<open>ilog2 x\<close> is the binary exponent of a
  positive \<open>x\<close>: \<open>2 powi ilog2 x \<le> x < 2 powi (ilog2 x + 1)\<close>.
\<close>

type_synonym pyfloat = rat

function bit_length :: "int \<Rightarrow> int" where
  "bit_length n = (if n \<le> 0 then 0 else 1 + bit_length (n div 2))"
  by pat_completeness auto
termination
  by (relation "measure nat") auto

declare bit_length.simps [simp del]

definition ilog2 :: "rat \<Rightarrow> int" where
  "ilog2 x = (if 1 \<le> x then bit_length \<lfloor>x\<rfloor> - 1 else - bit_length (\<lceil>1 / x\<rceil> - 1))"

definition round_tie_even :: "rat \<Rightarrow> int \<Rightarrow> int" where
  "round_tie_even m f =
     (if m - of_int f < 1 / 2 then f
      else if 1 / 2 < m - of_int f then f + 1
      else if even f then f else f + 1)"

definition round_half_even :: "rat \<Rightarrow> int" where
  "round_half_even m = round_tie_even m \<lfloor>m\<rfloor>"

definition round_at :: "rat \<Rightarrow> int \<Rightarrow> rat" where
  "round_at x t = of_int (round_half_even (x / 2 powi t)) * 2 powi t"

definition rnd64 :: "rat \<Rightarrow> pyfloat" where
  "rnd64 x = (if x = 0 then 0 else round_at x (max (ilog2 \<bar>x\<bar> - 52) (- 1074)))"

text \<open>
  Converting an \<open>int\<close> to a \<open>float\<close> rounds it and raises \<open>OverflowError\<close> when the
  rounded value needs a binary exponent above 1023.
\<close>

definition overflow_check :: "pyfloat \<Rightarrow> pyerror + pyfloat" where
  "overflow_check y =
     (if y \<noteq> 0 \<and> 1024 \<le> ilog2 \<bar>y\<bar> then Inl OverflowError else Inr y)"

definition float_of_int :: "int \<Rightarrow> pyerror + pyfloat" where
  "float_of_int n = overflow_check (rnd64 (of_int n))"

text \<open>
  \<open>math.sqrt\<close> is correctly rounded. \<open>isqrt\<close> is the integer square root;
  \<open>sqrt_round z\<close> is the integer nearest to the square root of \<open>z\<close>, and \<open>sqrt_at x t\<close>
  rounds the square root of \<open>x\<close> to a multiple of \<open>2 powi t\<close>.
\<close>

definition isqrt_step :: "int \<Rightarrow> int \<Rightarrow> int" where
  "isqrt_step n r = (if (r + 1) * (r + 1) \<le> n then r + 1 else r)"

function isqrt :: "int \<Rightarrow> int" where
  "isqrt n = (if n < 4 then (if n \<le> 0 then 0 else 1)
     else isqrt_step n (2 * isqrt (n div 4)))"
  by pat_completeness auto
termination
  by (relation "measure nat") auto

declare isqrt.simps [simp del]

definition sqrt_tie_even :: "rat \<Rightarrow> int \<Rightarrow> int" where
  "sqrt_tie_even z f =
     (if z < (of_int f + 1 / 2) * (of_int f + 1 / 2) then f
      else if (of_int f + 1 / 2) * (of_int f + 1 / 2) < z then f + 1
      else if even f then f else f + 1)"

definition sqrt_round :: "rat \<Rightarrow> int" where
  "sqrt_round z = sqrt_tie_even z (isqrt \<lfloor>z\<rfloor>)"

definition sqrt_at :: "rat \<Rightarrow> int \<Rightarrow> rat" where
  "sqrt_at x t = of_int (sqrt_round (x / 4 powi t)) * 2 powi t"

definition fl_sqrt :: "pyfloat \<Rightarrow> pyfloat" where
  "fl_sqrt x = (if x \<le> 0 then 0 else sqrt_at x (ilog2 x div 2 - 52))"

definition math_sqrt :: "int \<Rightarrow> pyerror + pyfloat" where
  "math_sqrt n = (case float_of_int n of Inl e \<Rightarrow> Inl e
     | Inr x \<Rightarrow> if x < 0 then Inl ValueError else Inr (fl_sqrt x))"

definition fl_mul :: "pyfloat \<Rightarrow> pyfloat \<Rightarrow> pyfloat" where
  "fl_mul x y = rnd64 (x * y)"

definition fl_truediv :: "pyfloat \<Rightarrow> pyfloat \<Rightarrow> pyerror + pyfloat" where
  "fl_truediv x y = (if y = 0 then Inl ZeroDivisionError else Inr (rnd64 (x / y)))"

text \<open>
  \<open>round(x, nd)\<close> rounds the exact value of \<open>x\<close> to \<open>nd\<close> decimals, half to even, and
  returns the float nearest to that decimal.
\<close>

definition py_round :: "pyfloat \<Rightarrow> nat \<Rightarrow> pyfloat" where
  "py_round x nd = rnd64 (of_int (round_half_even (x * 10 ^ nd)) / 10 ^ nd)"

section \<open>Text utilities\<close>

text \<open>
  \<open>token_char\<close> is the class of the lower-case ASCII letters, the digits and n-tilde (code point 241);
  \<open>retained_char\<close> is the class kept by \<open>normalizar\<close>: token characters, whitespace and the four marks ? ! . ,.
\<close>

definition token_char :: "codepoint \<Rightarrow> bool" where
  "token_char c \<longleftrightarrow> (97 \<le> c \<and> c \<le> 122) \<or> (48 \<le> c \<and> c \<le> 57) \<or> c = 241"

definition retained_char :: "unicode_db \<Rightarrow> codepoint \<Rightarrow> bool" where
  "retained_char U c \<longleftrightarrow>
     token_char c \<or> is_space U c \<or> c = 63 \<or> c = 33 \<or> c = 46 \<or> c = 44"

text \<open>The second substitution of \<open>normalizar\<close>: every maximal run of whitespace becomes one space.\<close>

fun sub_spaces :: "(codepoint \<Rightarrow> bool) \<Rightarrow> ustring \<Rightarrow> ustring" where
  "sub_spaces sp [] = []"
| "sub_spaces sp [c] = [if sp c then 32 else c]"
| "sub_spaces sp (c # d # cs) =
     (if sp c then (if sp d then sub_spaces sp (d # cs) else 32 # sub_spaces sp (d # cs))
      else c # sub_spaces sp (d # cs))"

definition strip :: "(codepoint \<Rightarrow> bool) \<Rightarrow> ustring \<Rightarrow> ustring" where
  "strip sp s = rev (dropWhile sp (rev (dropWhile sp s)))"

definition normalizar :: "unicode_db \<Rightarrow> ustring \<Rightarrow> ustring" where
  "normalizar U texto =
     (let t = str_lower U texto;
          t = nfd U t;
          t = filter (\<lambda>c. \<not> is_Mn U c) t;
          t = map (\<lambda>c. if retained_char U c then c else 32) t;
          t = sub_spaces (is_space U) t
      in strip (is_space U) t)"

text \<open>
  \<open>re.split\<close> on runs of separators: the pieces between the runs, with an empty piece
  where the string starts or ends with a separator.
\<close>

primrec re_split :: "(codepoint \<Rightarrow> bool) \<Rightarrow> ustring \<Rightarrow> ustring list" where
  "re_split sep [] = [[]]"
| "re_split sep (c # cs) =
     (if sep c
      then (case cs of
              [] \<Rightarrow> [] # re_split sep cs
            | d # _ \<Rightarrow> if sep d then re_split sep cs else [] # re_split sep cs)
      else (case re_split sep cs of [] \<Rightarrow> [[c]] | p # ps \<Rightarrow> (c # p) # ps))"

definition tokenizar :: "unicode_db \<Rightarrow> ustring \<Rightarrow> ustring list" where
  "tokenizar U texto =
     filter (\<lambda>tok. tok \<noteq> []) (re_split (\<lambda>c. \<not> token_char c) (normalizar U texto))"

text \<open>
  A \<open>Dict[str, int]\<close> is an association list in insertion order; \<open>dict_get\<close> is
  \<open>dict.get\<close> with its default.
\<close>

type_synonym dict = "(ustring \<times> int) list"

definition dict_get :: "dict \<Rightarrow> ustring \<Rightarrow> int \<Rightarrow> int" where
  "dict_get d k dflt = (case map_of d k of None \<Rightarrow> dflt | Some v \<Rightarrow> v)"

definition vectorizar :: "ustring list \<Rightarrow> dict" where
  "vectorizar tokens =
     fold (\<lambda>tok vec. AList.update tok (dict_get vec tok 0 + 1) vec) tokens []"

text \<open>
  The sum over \<open>set(a) | set(b)\<close> is a sum of integers, so the order in which the set
  is walked does not matter; the keys are taken in order of first occurrence.
\<close>

definition similitud_coseno :: "dict \<Rightarrow> dict \<Rightarrow> pyerror + pyfloat" where
  "similitud_coseno a b =
     (let dot = (\<Sum>k\<leftarrow>remdups (map fst a @ map fst b). dict_get a k 0 * dict_get b k 0)
      in case math_sqrt (\<Sum>v\<leftarrow>map snd a. v * v) of Inl e \<Rightarrow> Inl e | Inr na \<Rightarrow>
         (case math_sqrt (\<Sum>v\<leftarrow>map snd b. v * v) of Inl e \<Rightarrow> Inl e | Inr nb \<Rightarrow>
            if fl_mul na nb = 0 then Inr 0
            else (case float_of_int dot of Inl e \<Rightarrow> Inl e
                  | Inr d \<Rightarrow> fl_truediv d (fl_mul na nb))))"

section \<open>Storage\<close>

text \<open>
  The SQLite file holds at most the table \<open>kb\<close>: \<open>None\<close> is a database without it. A
  row is \<open>(id, pregunta, respuesta)\<close>; \<open>ultimo_id\<close> is the AUTOINCREMENT counter. The
  column \<open>creado_en\<close> is never read by the program and is left out. A statement on a
  missing table raises \<open>OperationalError\<close>.
\<close>

type_synonym fila = "int \<times> ustring \<times> ustring"

record tabla =
  filas :: "fila list"
  ultimo_id :: int

type_synonym database = "tabla option"

definition insertar :: "ustring \<times> ustring \<Rightarrow> tabla \<Rightarrow> tabla" where
  "insertar pr t =
     \<lparr> filas = filas t @ [(ultimo_id t + 1, fst pr, snd pr)], ultimo_id = ultimo_id t + 1 \<rparr>"

definition semillas :: "(ustring \<times> ustring) list" where
  "semillas =
    [(ustr ''hola'',
      [72, 111, 108, 97, 44, 32, 191, 101, 110, 32, 113, 117, 233, 32, 116, 101, 32,
      97, 121, 117, 100, 111, 63]),
     (ustr ''como estas'',
      [66, 105, 101, 110, 46, 32, 191, 81, 117, 233, 32, 110, 101, 99, 101, 115, 105,
      116, 97, 115, 63]),
     (ustr ''de que te gustaria hablar'',
      [80, 111, 100, 101, 109, 111, 115, 32, 104, 97, 98, 108, 97, 114, 32, 100, 101,
      32, 105, 110, 103, 101, 110, 105, 101, 114, 237, 97, 44, 32, 112, 114, 111, 103,
      114, 97, 109, 97, 99, 105, 243, 110, 32, 111, 32, 100, 101, 108, 32, 116, 101,
      109, 97, 32, 113, 117, 101, 32, 116, 114, 97, 101, 115, 46])]"

definition iniciar_db :: "database \<Rightarrow> database" where
  "iniciar_db db =
     (let t = (case db of None \<Rightarrow> \<lparr> filas = [], ultimo_id = 0 \<rparr> | Some t \<Rightarrow> t)
      in if length (filas t) = 0 then Some (fold insertar semillas t) else Some t)"

definition guardar_entrada ::
  "unicode_db \<Rightarrow> database \<Rightarrow> ustring \<Rightarrow> ustring \<Rightarrow> pyerror + database" where
  "guardar_entrada U db pregunta respuesta =
     (let norm = normalizar U pregunta
      in case db of None \<Rightarrow> Inl OperationalError
         | Some t \<Rightarrow> Inr (Some (insertar (norm, respuesta) t)))"

definition cargar_todas :: "database \<Rightarrow> pyerror + fila list" where
  "cargar_todas db = (case db of None \<Rightarrow> Inl OperationalError | Some t \<Rightarrow> Inr (filas t))"

section \<open>Matching\<close>

text \<open>The dictionary \<open>mejor\<close> of \<open>mejor_coincidencia\<close>, with its four keys.\<close>

record mejor =
  m_id :: int
  m_score :: pyfloat
  m_pregunta :: ustring
  m_respuesta :: ustring

definition centinela :: mejor where
  "centinela = \<lparr> m_id = - 1, m_score = 0, m_pregunta = [], m_respuesta = [] \<rparr>"

text \<open>The \<open>for\<close> loop of \<open>mejor_coincidencia\<close> over the rows, carrying \<open>mejor\<close>.\<close>

fun recorrer :: "unicode_db \<Rightarrow> dict \<Rightarrow> mejor \<Rightarrow> fila list \<Rightarrow> pyerror + mejor" where
  "recorrer U vec_q m [] = Inr m"
| "recorrer U vec_q m ((fid, preg, resp) # fs) =
     (case similitud_coseno vec_q (vectorizar (tokenizar U preg)) of
        Inl e \<Rightarrow> Inl e
      | Inr s \<Rightarrow>
          recorrer U vec_q
            (if s > m_score m
             then \<lparr> m_id = fid, m_score = s, m_pregunta = preg, m_respuesta = resp \<rparr>
             else m) fs)"

definition mejor_coincidencia ::
  "unicode_db \<Rightarrow> database \<Rightarrow> ustring \<Rightarrow> pyerror + (mejor \<times> ustring)" where
  "mejor_coincidencia U db texto_usuario =
     (let norm = normalizar U texto_usuario;
          vec_q = vectorizar (tokenizar U norm)
      in case cargar_todas db of Inl e \<Rightarrow> Inl e
         | Inr fs \<Rightarrow>
             (case recorrer U vec_q centinela fs of Inl e \<Rightarrow> Inl e
              | Inr m \<Rightarrow> Inr (m, norm)))"

section \<open>Response policy\<close>

record resultado =
  coincidencia :: bool
  respuesta :: ustring
  puntaje :: pyfloat
  pregunta_coincidente :: "ustring option"

text \<open>The literal \<open>0.72\<close> denotes the float nearest to 72/100.\<close>

definition UMBRAL :: pyfloat where
  "UMBRAL = rnd64 (72 / 100)"

definition sin_respuesta :: ustring where
  "sin_respuesta =
     [78, 111, 32, 116, 101, 110, 103, 111, 32, 117, 110, 97, 32, 114, 101, 115, 112,
     117, 101, 115, 116, 97, 32, 112, 97, 114, 97, 32, 101, 115, 111, 32, 116, 111,
     100, 97, 118, 237, 97, 46]"

definition responder :: "unicode_db \<Rightarrow> database \<Rightarrow> ustring \<Rightarrow> pyerror + resultado" where
  "responder U db mensaje =
     (case mejor_coincidencia U db mensaje of Inl e \<Rightarrow> Inl e
      | Inr (m, _) \<Rightarrow>
          if m_score m \<ge> UMBRAL
          then Inr \<lparr> coincidencia = True, respuesta = m_respuesta m,
                     puntaje = py_round (m_score m) 3,
                     pregunta_coincidente = Some (m_pregunta m) \<rparr>
          else Inr \<lparr> coincidencia = False, respuesta = sin_respuesta,
                     puntaje = py_round (m_score m) 3,
                     pregunta_coincidente = None \<rparr>)"

section \<open>A Latin-1 fragment of the Unicode database\<close>

text \<open>
  The Unicode data for the code points below 256 and the combining diacritical marks
  (768 to 879): lower-casing, the canonical decompositions, the category \<open>Mn\<close> and the
  whitespace class. It instantiates \<open>unicode_db\<close> on concrete text in that range.
\<close>

definition latin1_lower :: "codepoint \<Rightarrow> codepoint" where
  "latin1_lower c =
     (if (65 \<le> c \<and> c \<le> 90) \<or> (192 \<le> c \<and> c \<le> 214) \<or> (216 \<le> c \<and> c \<le> 222)
      then c + 32 else c)"

definition latin1_decomposition :: "(codepoint \<times> ustring) list" where
  "latin1_decomposition =
    [
     (192, [65, 768]), (193, [65, 769]), (194, [65, 770]), (195, [65, 771]),
     (196, [65, 776]), (197, [65, 778]), (199, [67, 807]), (200, [69, 768]),
     (201, [69, 769]), (202, [69, 770]), (203, [69, 776]), (204, [73, 768]),
     (205, [73, 769]), (206, [73, 770]), (207, [73, 776]), (209, [78, 771]),
     (210, [79, 768]), (211, [79, 769]), (212, [79, 770]), (213, [79, 771]),
     (214, [79, 776]), (217, [85, 768]), (218, [85, 769]), (219, [85, 770]),
     (220, [85, 776]), (221, [89, 769]), (224, [97, 768]), (225, [97, 769]),
     (226, [97, 770]), (227, [97, 771]), (228, [97, 776]), (229, [97, 778]),
     (231, [99, 807]), (232, [101, 768]), (233, [101, 769]), (234, [101, 770]),
     (235, [101, 776]), (236, [105, 768]), (237, [105, 769]), (238, [105, 770]),
     (239, [105, 776]), (241, [110, 771]), (242, [111, 768]), (243, [111, 769]),
     (244, [111, 770]), (245, [111, 771]), (246, [111, 776]), (249, [117, 768]),
     (250, [117, 769]), (251, [117, 770]), (252, [117, 776]), (253, [121, 769]),
     (255, [121, 776])
    ]"

definition latin1_nfd :: "codepoint \<Rightarrow> ustring" where
  "latin1_nfd c = (case map_of latin1_decomposition c of None \<Rightarrow> [c] | Some d \<Rightarrow> d)"

definition py_isspace :: "codepoint \<Rightarrow> bool" where
  "py_isspace c \<longleftrightarrow>
     (9 \<le> c \<and> c \<le> 13) \<or> (28 \<le> c \<and> c \<le> 32) \<or> c = 133 \<or> c = 160 \<or> c = 5760
     \<or> (8192 \<le> c \<and> c \<le> 8202) \<or> c = 8232 \<or> c = 8233 \<or> c = 8239 \<or> c = 8287
     \<or> c = 12288"

definition latin1_db :: unicode_db where
  "latin1_db = \<lparr> str_lower = map latin1_lower,
                 nfd = concat \<circ> map latin1_nfd,
                 is_Mn = (\<lambda>c. 768 \<le> c \<and> c \<le> 879),
                 is_space = py_isspace \<rparr>"

section \<open>Auxiliary notions for the properties\<close>

text \<open>The rows of a database; a database without the table has none.\<close>

definition registros :: "database \<Rightarrow> fila list" where
  "registros db = (case db of None \<Rightarrow> [] | Some t \<Rightarrow> filas t)"

text \<open>
  Two one-row knowledge bases: against the first, the query \<open>a a a b b b b\<close> scores
  18 / (5 * 5), which is the threshold itself; against the second, \<open>a a a a b\<close> scores
  19 / (sqrt 17 * sqrt 41), just below it.
\<close>

definition kb_frontera :: database where
  "kb_frontera =
     Some \<lparr> filas = [(1, ustr ''a a b b b c c d d e e'', ustr ''si'')], ultimo_id = 1 \<rparr>"

definition kb_redondeo :: database where
  "kb_redondeo =
     Some \<lparr> filas = [(1, ustr ''a a a a b b b c c c c'', ustr ''no'')], ultimo_id = 1 \<rparr>"

text \<open>
  The score \<open>mejor_coincidencia\<close> computes for a row against a user text, and the
  dictionary it builds when that row becomes the best one.
\<close>

definition puntuar :: "unicode_db \<Rightarrow> ustring \<Rightarrow> fila \<Rightarrow> pyerror + pyfloat" where
  "puntuar U texto f =
     similitud_coseno (vectorizar (tokenizar U (normalizar U texto)))
       (vectorizar (tokenizar U (fst (snd f))))"

definition candidato :: "fila \<Rightarrow> pyfloat \<Rightarrow> mejor" where
  "candidato f s =
     \<lparr> m_id = fst f, m_score = s, m_pregunta = fst (snd f), m_respuesta = snd (snd f) \<rparr>"



text \<open>The table that \<open>iniciar_db\<close> creates in a new database file.\<close>

definition tabla_semillas :: tabla where
  "tabla_semillas = fold insertar semillas \<lparr> filas = [], ultimo_id = 0 \<rparr>"

text \<open>
  The characters a normalised text is made of (lower-case ASCII letters, digits, the
  four marks and the space), and the facts about the Unicode database that the
  properties of \<open>normalizar\<close> rest on: such characters are unchanged by \<open>str.lower\<close>
  and by NFD and are not combining marks; the space is whitespace and the others are not;
  and NFD never leaves the precomposed n-tilde (241) in its output, since it decomposes
  it into \<open>n\<close> and the combining tilde (771).
\<close>

definition basic_char :: "codepoint \<Rightarrow> bool" where
  "basic_char c \<longleftrightarrow>
     (97 \<le> c \<and> c \<le> 122) \<or> (48 \<le> c \<and> c \<le> 57) \<or> c = 63 \<or> c = 33 \<or> c = 46 \<or> c = 44 \<or> c = 32"

definition unicode_ok :: "unicode_db \<Rightarrow> bool" where
  "unicode_ok U \<longleftrightarrow>
     (\<forall>s. list_all basic_char s \<longrightarrow> str_lower U s = s)
   \<and> (\<forall>s. list_all basic_char s \<longrightarrow> nfd U s = s)
   \<and> (\<forall>c. basic_char c \<longrightarrow> \<not> is_Mn U c)
   \<and> is_space U 32
   \<and> (\<forall>c. basic_char c \<and> c \<noteq> 32 \<longrightarrow> \<not> is_space U c)
   \<and> \<not> is_space U 241
   \<and> (\<forall>s. 241 \<notin> set (nfd U s))
   \<and> is_Mn U 771
   \<and> (\<forall>s. nfd U s = [] \<longleftrightarrow> s = [])"

fun sin_dobles :: "ustring \<Rightarrow> bool" where
  "sin_dobles [] = True"
| "sin_dobles [c] = True"
| "sin_dobles (c # d # cs) = (\<not> (c = 32 \<and> d = 32) \<and> sin_dobles (d # cs))"

definition limpio :: "ustring \<Rightarrow> bool" where
  "limpio s \<longleftrightarrow>
     list_all basic_char s \<and> sin_dobles s \<and> (s = [] \<or> (hd s \<noteq> 32 \<and> last s \<noteq> 32))"

text \<open>The states of the store that the program can reach from a new database file.\<close>

inductive alcanzable :: "unicode_db \<Rightarrow> database \<Rightarrow> bool" for U :: unicode_db where
  nueva: "alcanzable U None"
| iniciar: "alcanzable U db \<Longrightarrow> alcanzable U (iniciar_db db)"
| guardar: "alcanzable U db \<Longrightarrow> guardar_entrada U db p r = Inr db'
            \<Longrightarrow> alcanzable U db'"

text \<open>
  A store in which the first two rows score the same against \<open>hola\<close> and the third
  scores higher.
\<close>

definition kb_tercero :: database where
  "kb_tercero =
     Some \<lparr> filas = [(1, ustr ''hola mundo'', ustr ''uno''), (2, ustr ''hola mundo'', ustr ''dos''),
                      (3, ustr ''hola'', ustr ''tres'')],
            ultimo_id = 3 \<rparr>"

text \<open>
  The seeded store after the program has been taught one answer: the raw question
  is \<open>?Cu\<acute>entame  un CHISTE?\<close> with an inverted question mark (191) in front, an
  accented \<open>e\<close> (233) and two spaces; the answer is \<open>No s\<acute>e chistes\<close>.
\<close>

definition pregunta_chiste :: ustring where
  "pregunta_chiste = [191] @ ustr ''Cu'' @ [233] @ ustr ''ntame  un CHISTE?''"

definition respuesta_chiste :: ustring where
  "respuesta_chiste = ustr ''No s'' @ [233] @ ustr '' chistes''"

definition kb_aprendida :: database where
  "kb_aprendida =
     Some (insertar (ustr ''cuentame un chiste?'', respuesta_chiste) tabla_semillas)"

(*DEFS*)

section \<open>Properties\<close>

subsection \<open>Storage\<close>

lemma pares_fold_insertar:
  "map snd (filas (fold insertar ps t)) = map snd (filas t) @ ps"
  by (induction ps arbitrary: t) (simp_all add: insertar_def)

lemma length_semillas: "length semillas = 3"
  by (simp add: semillas_def)

lemma iniciar_db_vacia:
  assumes "registros db = []"
  shows "map snd (registros (iniciar_db db)) = semillas"
proof (cases db)
  case None
  then show ?thesis
    by (simp add: iniciar_db_def registros_def pares_fold_insertar)
next
  case (Some t)
  with assms have "filas t = []" by (simp add: registros_def)
  with Some show ?thesis
    by (simp add: iniciar_db_def registros_def pares_fold_insertar)
qed

lemma iniciar_db_poblada:
  assumes "registros db \<noteq> []"
  shows "iniciar_db db = db"
  using assms by (cases db) (simp_all add: iniciar_db_def registros_def)

text \<open>
  C9 (bootstrap idempotence). On a store without rows (no table, or an empty one)
  \<open>iniciar_db\<close> leaves exactly the three seed pairs, in order; on a store that has a row
  it changes nothing; so running it twice is the same as running it once.
\<close>

theorem iniciar_db_idempotente:
  "(registros db = [] \<longrightarrow> map snd (registros (iniciar_db db)) = semillas)
   \<and> (registros db \<noteq> [] \<longrightarrow> iniciar_db db = db)
   \<and> iniciar_db (iniciar_db db) = iniciar_db db
   \<and> length semillas = 3"
proof -
  have poblada: "registros (iniciar_db db) \<noteq> []"
  proof (cases "registros db = []")
    case True
    then have "map snd (registros (iniciar_db db)) = semillas" by (rule iniciar_db_vacia)
    then have "length (registros (iniciar_db db)) = 3"
      using length_semillas by (metis length_map)
    then show ?thesis by auto
  next
    case False
    then show ?thesis by (simp add: iniciar_db_poblada)
  qed
  show ?thesis
    using iniciar_db_vacia iniciar_db_poblada [OF poblada] iniciar_db_poblada length_semillas
    by blast
qed

theorem iniciar_db_idempotente_witness:
  "map snd (registros (iniciar_db None)) = semillas
   \<and> registros (iniciar_db None) \<noteq> []
   \<and> iniciar_db (iniciar_db None) = iniciar_db None
   \<and> map fst (registros (iniciar_db (iniciar_db None))) = [1, 2, 3]"
proof -
  have ids: "map fst (registros (iniciar_db None)) = [1, 2, 3]"
    by (simp add: iniciar_db_def registros_def semillas_def insertar_def)
  have vacia: "registros None = []" by (simp add: registros_def)
  show ?thesis
    using iniciar_db_idempotente [of None] iniciar_db_idempotente [of "iniciar_db None"] vacia ids
    by (metis list.distinct(1) map_is_Nil_conv)
qed

subsection \<open>Response policy\<close>

lemma UMBRAL_value: "UMBRAL = 3242591731706757 / 4503599627370496"
  unfolding UMBRAL_def by code_simp

lemma py_round_zero: "py_round 0 nd = 0"
  by (simp add: py_round_def round_half_even_def round_tie_even_def rnd64_def)

text \<open>
  C1 (threshold boundary). Whenever the matcher returns a best match, \<open>responder\<close>
  returns a hit, with the stored answer and the matched question, if the score is at
  least \<open>UMBRAL\<close>, and a miss with the fixed message if it is below. A score equal to
  \<open>UMBRAL\<close> is a hit.
\<close>

theorem responder_umbral:
  assumes "mejor_coincidencia U db mensaje = Inr (m, n)"
  shows "(UMBRAL \<le> m_score m \<longrightarrow>
            responder U db mensaje =
              Inr \<lparr> coincidencia = True, respuesta = m_respuesta m,
                    puntaje = py_round (m_score m) 3,
                    pregunta_coincidente = Some (m_pregunta m) \<rparr>)
       \<and> (m_score m < UMBRAL \<longrightarrow>
            responder U db mensaje =
              Inr \<lparr> coincidencia = False, respuesta = sin_respuesta,
                    puntaje = py_round (m_score m) 3,
                    pregunta_coincidente = None \<rparr>)"
  using assms by (simp add: responder_def)

theorem responder_umbral_witness:
  "mejor_coincidencia latin1_db kb_frontera (ustr ''a a a b b b b'') =
     Inr (\<lparr> m_id = 1, m_score = UMBRAL, m_pregunta = ustr ''a a b b b c c d d e e'',
            m_respuesta = ustr ''si'' \<rparr>, ustr ''a a a b b b b'')
   \<and> responder latin1_db kb_frontera (ustr ''a a a b b b b'') =
       Inr \<lparr> coincidencia = True, respuesta = ustr ''si'', puntaje = py_round UMBRAL 3,
             pregunta_coincidente = Some (ustr ''a a b b b c c d d e e'') \<rparr>"
proof -
  have ev: "mejor_coincidencia latin1_db kb_frontera (ustr ''a a a b b b b'') =
     Inr (\<lparr> m_id = 1, m_score = 3242591731706757 / 4503599627370496,
            m_pregunta = ustr ''a a b b b c c d d e e'', m_respuesta = ustr ''si'' \<rparr>,
          ustr ''a a a b b b b'')"
    by code_simp
  show ?thesis
    using responder_umbral [OF ev] ev by (simp add: UMBRAL_value)
qed

lemma round_half_even_cerca:
  "\<bar>m - of_int (round_half_even m)\<bar> \<le> 1 / 2
   \<and> (\<bar>m - of_int (round_half_even m)\<bar> = 1 / 2 \<longrightarrow> even (round_half_even m))"
proof -
  define f where "f = \<lfloor>m\<rfloor>"
  define d where "d = m - of_int f"
  define k where "k = round_half_even m"
  have d: "0 \<le> d" "d < 1" unfolding d_def f_def by linarith+
  have k_eq: "k = (if d < 1 / 2 then f else if 1 / 2 < d then f + 1
                   else if even f then f else f + 1)"
    by (simp add: k_def round_half_even_def round_tie_even_def f_def d_def)
  have dif: "m - of_int k = d + of_int (f - k)" by (simp add: d_def)
  consider "d < 1 / 2" | "1 / 2 < d" | "d = 1 / 2" "even f" | "d = 1 / 2" "odd f" by linarith
  then have "\<bar>m - of_int k\<bar> \<le> 1 / 2 \<and> (\<bar>m - of_int k\<bar> = 1 / 2 \<longrightarrow> even k)"
  proof cases
    case 1
    then have "f - k = 0" by (simp add: k_eq)
    with 1 d dif show ?thesis by simp
  next
    case 2
    then have "f - k = - 1" by (simp add: k_eq)
    with 2 d dif show ?thesis by simp
  next
    case 3
    then have "k = f" by (simp add: k_eq)
    with 3 dif show ?thesis by simp
  next
    case 4
    then have "k = f + 1" by (simp add: k_eq)
    with 4 dif show ?thesis by simp
  qed
  then show ?thesis unfolding k_def .
qed

text \<open>
  C10 (score rounding). The \<open>puntaje\<close> of the result, hit or miss, is the float
  nearest to \<open>k / 1000\<close>, where \<open>k\<close> is the integer nearest to a thousand times
  the best match's score (the even one of the two when the score lies halfway): the
  score rounded to three decimals. The hit flag compares the unrounded score with
  \<open>UMBRAL\<close>. The witnesses are two misses, reported as 0.72 and as 0.707.
\<close>

theorem responder_puntaje:
  assumes "mejor_coincidencia U db mensaje = Inr (m, n)"
  shows "\<exists>r k. responder U db mensaje = Inr r
           \<and> puntaje r = rnd64 (of_int k / 1000)
           \<and> \<bar>m_score m * 1000 - of_int k\<bar> \<le> 1 / 2
           \<and> (\<bar>m_score m * 1000 - of_int k\<bar> = 1 / 2 \<longrightarrow> even k)
           \<and> coincidencia r = (UMBRAL \<le> m_score m)"
proof -
  let ?k = "round_half_even (m_score m * 10 ^ 3)"
  have p: "py_round (m_score m) 3 = rnd64 (of_int ?k / 1000)"
    by (simp add: py_round_def)
  have c: "\<bar>m_score m * 1000 - of_int ?k\<bar> \<le> 1 / 2
      \<and> (\<bar>m_score m * 1000 - of_int ?k\<bar> = 1 / 2 \<longrightarrow> even ?k)"
    using round_half_even_cerca [of "m_score m * 10 ^ 3"] by simp
  show ?thesis
  proof (cases "UMBRAL \<le> m_score m")
    case True
    with assms p c show ?thesis
      by (intro exI [of _ "\<lparr> coincidencia = True, respuesta = m_respuesta m,
                    puntaje = py_round (m_score m) 3,
                    pregunta_coincidente = Some (m_pregunta m) \<rparr>"] exI [of _ ?k])
        (simp add: responder_def)
  next
    case False
    with assms p c show ?thesis
      by (intro exI [of _ "\<lparr> coincidencia = False, respuesta = sin_respuesta,
                    puntaje = py_round (m_score m) 3,
                    pregunta_coincidente = None \<rparr>"] exI [of _ ?k])
        (simp add: responder_def)
  qed
qed

theorem responder_puntaje_witness:
  "(\<exists>r. responder latin1_db kb_redondeo (ustr ''a a a a b'') = Inr r
        \<and> puntaje r = rnd64 (720 / 1000) \<and> \<not> coincidencia r)
   \<and> (\<exists>r. responder latin1_db kb_tercero (ustr ''mundo'') = Inr r
        \<and> puntaje r = rnd64 (707 / 1000) \<and> \<not> coincidencia r)"
proof -
  have ev1: "mejor_coincidencia latin1_db kb_redondeo (ustr ''a a a a b'') =
     Inr (\<lparr> m_id = 1, m_score = 3241133998133507 / 4503599627370496,
            m_pregunta = ustr ''a a a a b b b c c c c'', m_respuesta = ustr ''no'' \<rparr>,
          ustr ''a a a a b'')"
    by code_simp
  have ev2: "mejor_coincidencia latin1_db kb_tercero (ustr ''mundo'') =
     Inr (\<lparr> m_id = 1, m_score = 1592262918131443 / 2251799813685248,
            m_pregunta = ustr ''hola mundo'', m_respuesta = ustr ''uno'' \<rparr>,
          ustr ''mundo'')"
    by code_simp
  from responder_puntaje [OF ev1] obtain r1 k1 where
    r1: "responder latin1_db kb_redondeo (ustr ''a a a a b'') = Inr r1"
    and p1: "puntaje r1 = rnd64 (of_int k1 / 1000)"
    and c1: "\<bar>3241133998133507 / 4503599627370496 * 1000 - (of_int k1 :: rat)\<bar> \<le> 1 / 2"
    and h1: "coincidencia r1 = (UMBRAL \<le> 3241133998133507 / 4503599627370496)"
    by auto
  from c1 have "(of_int k1 :: rat) < of_int 721" "(of_int 719 :: rat) < of_int k1" by linarith+
  then have "k1 < 721" "719 < k1" by (simp_all only: of_int_less_iff)
  then have k1: "k1 = 720" by simp
  from responder_puntaje [OF ev2] obtain r2 k2 where
    r2: "responder latin1_db kb_tercero (ustr ''mundo'') = Inr r2"
    and p2: "puntaje r2 = rnd64 (of_int k2 / 1000)"
    and c2: "\<bar>1592262918131443 / 2251799813685248 * 1000 - (of_int k2 :: rat)\<bar> \<le> 1 / 2"
    and h2: "coincidencia r2 = (UMBRAL \<le> 1592262918131443 / 2251799813685248)"
    by auto
  from c2 have "(of_int k2 :: rat) < of_int 708" "(of_int 706 :: rat) < of_int k2" by linarith+
  then have "k2 < 708" "706 < k2" by (simp_all only: of_int_less_iff)
  then have k2: "k2 = 707" by simp
  show ?thesis
    using r1 p1 h1 k1 r2 p2 h2 k2 by (simp add: UMBRAL_value)
qed

subsection \<open>Matching\<close>

lemma recorrer_caracterizacion:
  assumes "recorrer U vq m0 fs = Inr m"
  shows "(m = m0 \<and> (\<forall>f\<in>set fs. \<exists>s. similitud_coseno vq (vectorizar (tokenizar U (fst (snd f)))) = Inr s \<and> s \<le> m_score m0))
       \<or> (\<exists>pre f post s. fs = pre @ f # post
             \<and> similitud_coseno vq (vectorizar (tokenizar U (fst (snd f)))) = Inr s
             \<and> m = candidato f s \<and> m_score m0 < s
             \<and> (\<forall>g\<in>set pre. \<exists>s'. similitud_coseno vq (vectorizar (tokenizar U (fst (snd g)))) = Inr s' \<and> s' < s)
             \<and> (\<forall>g\<in>set post. \<exists>s'. similitud_coseno vq (vectorizar (tokenizar U (fst (snd g)))) = Inr s' \<and> s' \<le> s))"
  using assms
proof (induction fs arbitrary: m0)
  case Nil
  then show ?case by simp
next
  case (Cons f fs)
  obtain fid preg resp where f: "f = (fid, preg, resp)" by (cases f)
  let ?sc = "\<lambda>g. similitud_coseno vq (vectorizar (tokenizar U (fst (snd g))))"
  from Cons.prems f obtain s0 where s0: "?sc f = Inr s0"
    by (auto split: sum.splits)
  let ?m1 = "if s0 > m_score m0 then candidato f s0 else m0"
  from Cons.prems f s0 have rec: "recorrer U vq ?m1 fs = Inr m"
    by (cases "s0 > m_score m0") (simp_all add: candidato_def)
  from Cons.IH [OF rec] show ?case
  proof (elim disjE conjE exE)
    assume m: "m = ?m1" and le: "\<forall>g\<in>set fs. \<exists>s. ?sc g = Inr s \<and> s \<le> m_score ?m1"
    show ?thesis
    proof (cases "s0 > m_score m0")
      case True
      have "f # fs = [] @ f # fs" by simp
      moreover have "\<forall>g\<in>set fs. \<exists>s'. ?sc g = Inr s' \<and> s' \<le> s0"
        using le True by (simp add: candidato_def)
      ultimately show ?thesis using m True s0 by (intro disjI2 exI[of _ "[]"] exI[of _ f] exI[of _ fs] exI[of _ s0]) simp
    next
      case False
      then show ?thesis using m le s0 by (intro disjI1) auto
    qed
  next
    fix pre g post s
    assume fs: "fs = pre @ g # post" and sg: "?sc g = Inr s" and m: "m = candidato g s"
      and lt: "m_score ?m1 < s"
      and pre: "\<forall>h\<in>set pre. \<exists>s'. ?sc h = Inr s' \<and> s' < s"
      and post: "\<forall>h\<in>set post. \<exists>s'. ?sc h = Inr s' \<and> s' \<le> s"
    have s0s: "s0 < s" and m0s: "m_score m0 < s"
      using lt by (auto simp: candidato_def split: if_splits)
    have "f # fs = (f # pre) @ g # post" using fs by simp
    moreover have "\<forall>h\<in>set (f # pre). \<exists>s'. ?sc h = Inr s' \<and> s' < s"
      using pre s0 s0s by simp
    ultimately show ?thesis using sg m m0s post
      by (intro disjI2 exI[of _ "f # pre"] exI[of _ g] exI[of _ post] exI[of _ s]) simp
  qed
qed

lemma mejor_coincidencia_caracterizacion:
  assumes "mejor_coincidencia U (Some t) texto = Inr (m, n)"
  shows "n = normalizar U texto \<and>
       ((m = centinela \<and> (\<forall>f\<in>set (filas t). \<exists>s. puntuar U texto f = Inr s \<and> s \<le> 0))
       \<or> (\<exists>pre f post s. filas t = pre @ f # post
             \<and> puntuar U texto f = Inr s \<and> m = candidato f s \<and> 0 < s
             \<and> (\<forall>g\<in>set pre. \<exists>s'. puntuar U texto g = Inr s' \<and> s' < s)
             \<and> (\<forall>g\<in>set post. \<exists>s'. puntuar U texto g = Inr s' \<and> s' \<le> s)))"
proof -
  let ?vq = "vectorizar (tokenizar U (normalizar U texto))"
  from assms have rec: "recorrer U ?vq centinela (filas t) = Inr m" and n: "n = normalizar U texto"
    by (auto simp: mejor_coincidencia_def cargar_todas_def Let_def split: sum.splits)
  have c0: "m_score centinela = 0" by (simp add: centinela_def)
  from recorrer_caracterizacion [OF rec] n show ?thesis
    unfolding puntuar_def c0 by simp
qed

lemma recorrer_todos_bajo:
  assumes "\<forall>f\<in>set fs. \<exists>s. similitud_coseno vq (vectorizar (tokenizar U (fst (snd f)))) = Inr s \<and> s \<le> m_score m0"
  shows "recorrer U vq m0 fs = Inr m0"
  using assms
proof (induction fs)
  case Nil
  then show ?case by simp
next
  case (Cons f fs)
  obtain fid preg resp where f: "f = (fid, preg, resp)" by (cases f)
  with Cons show ?case by auto
qed






text \<open>
  C7 (sentinel). If every row scores 0 against the query, in particular if the table is
  empty, the matcher returns the sentinel and \<open>responder\<close> a miss with score 0 and
  the fixed message. Whatever the rows, the matcher returns the sentinel or a row of
  positive score: a row of score 0 is never the match.
\<close>

theorem mejor_coincidencia_centinela:
  "((\<forall>f\<in>set (filas t). puntuar U texto f = Inr 0) \<longrightarrow>
        mejor_coincidencia U (Some t) texto = Inr (centinela, normalizar U texto)
      \<and> responder U (Some t) texto =
          Inr \<lparr> coincidencia = False, respuesta = sin_respuesta, puntaje = 0,
                pregunta_coincidente = None \<rparr>)
   \<and> (\<forall>m n. mejor_coincidencia U (Some t) texto = Inr (m, n) \<longrightarrow>
         m = centinela
         \<or> (0 < m_score m
            \<and> (\<exists>f\<in>set (filas t). puntuar U texto f = Inr (m_score m)
                  \<and> m = candidato f (m_score m))))
   \<and> centinela = \<lparr> m_id = - 1, m_score = 0, m_pregunta = [], m_respuesta = [] \<rparr>"
proof (intro conjI impI allI)
  assume cero: "\<forall>f\<in>set (filas t). puntuar U texto f = Inr 0"
  let ?vq = "vectorizar (tokenizar U (normalizar U texto))"
  have "recorrer U ?vq centinela (filas t) = Inr centinela"
    by (rule recorrer_todos_bajo) (use cero in \<open>simp add: puntuar_def centinela_def\<close>)
  then show mc: "mejor_coincidencia U (Some t) texto = Inr (centinela, normalizar U texto)"
    by (simp add: mejor_coincidencia_def cargar_todas_def)
  have "0 < UMBRAL" by (simp add: UMBRAL_value)
  then show "responder U (Some t) texto =
          Inr \<lparr> coincidencia = False, respuesta = sin_respuesta, puntaje = 0,
                pregunta_coincidente = None \<rparr>"
    using mc by (simp add: responder_def centinela_def py_round_zero)
next
  fix m n
  assume "mejor_coincidencia U (Some t) texto = Inr (m, n)"
  from mejor_coincidencia_caracterizacion [OF this, THEN conjunct2]
  show "m = centinela
         \<or> (0 < m_score m
            \<and> (\<exists>f\<in>set (filas t). puntuar U texto f = Inr (m_score m)
                  \<and> m = candidato f (m_score m)))"
    by (elim disjE conjE exE) (auto simp: candidato_def)
next
  show "centinela = \<lparr> m_id = - 1, m_score = 0, m_pregunta = [], m_respuesta = [] \<rparr>"
    by (simp add: centinela_def)
qed

theorem mejor_coincidencia_centinela_witness:
  "mejor_coincidencia latin1_db (Some \<lparr> filas = [], ultimo_id = 0 \<rparr>) (ustr ''hola'')
     = Inr (centinela, ustr ''hola'')
   \<and> list_all (\<lambda>f. puntuar latin1_db (ustr ''adios'') f = Inr 0) (filas tabla_semillas)
   \<and> responder latin1_db (iniciar_db None) (ustr ''adios'') =
        Inr \<lparr> coincidencia = False, respuesta = sin_respuesta, puntaje = 0,
              pregunta_coincidente = None \<rparr>"
proof -
  have vacia: "\<forall>f\<in>set (filas \<lparr> filas = [], ultimo_id = 0 \<rparr>). puntuar latin1_db (ustr ''hola'') f = Inr 0"
    by simp
  have n: "normalizar latin1_db (ustr ''hola'') = ustr ''hola''" by code_simp
  have cero: "\<forall>f\<in>set (filas tabla_semillas). puntuar latin1_db (ustr ''adios'') f = Inr 0"
    by code_simp
  have ini: "iniciar_db None = Some tabla_semillas"
    by (simp add: iniciar_db_def tabla_semillas_def semillas_def insertar_def)
  show ?thesis
    using mejor_coincidencia_centinela [of "\<lparr> filas = [], ultimo_id = 0 \<rparr>" latin1_db "ustr ''hola''"]
      mejor_coincidencia_centinela [of tabla_semillas latin1_db "ustr ''adios''"] vacia cero n ini
    by (simp add: list_all_iff)
qed

subsection \<open>Text normalisation\<close>

lemma latin1_lower_basic: "basic_char c \<Longrightarrow> latin1_lower c = c"
  by (auto simp: basic_char_def latin1_lower_def)

lemma latin1_nfd_basic: "basic_char c \<Longrightarrow> latin1_nfd c = [c]"
  by (auto simp: basic_char_def latin1_nfd_def latin1_decomposition_def)

lemma latin1_nfd_sin_enye: "241 \<notin> set (latin1_nfd c)"
  by (simp add: latin1_nfd_def latin1_decomposition_def)

lemma latin1_nfd_no_vacio: "latin1_nfd c \<noteq> []"
  by (simp add: latin1_nfd_def latin1_decomposition_def)

lemma latin1_db_ok: "unicode_ok latin1_db"
proof -
  have l: "list_all basic_char s \<Longrightarrow> map latin1_lower s = s" for s
    by (induction s) (simp_all add: latin1_lower_basic)
  have n: "list_all basic_char s \<Longrightarrow> concat (map latin1_nfd s) = s" for s
    by (induction s) (simp_all add: latin1_nfd_basic)
  have e: "241 \<notin> set (concat (map latin1_nfd s))" for s
    using latin1_nfd_sin_enye by auto
  have v: "concat (map latin1_nfd s) = [] \<longleftrightarrow> s = []" for s
    using latin1_nfd_no_vacio by (cases s) auto
  show ?thesis
    unfolding unicode_ok_def latin1_db_def
    using l n e v by (auto simp: basic_char_def py_isspace_def)
qed


lemma sub_spaces_set:
  "c \<in> set (sub_spaces sp s) \<Longrightarrow> c = 32 \<or> (c \<in> set s \<and> \<not> sp c)"
  by (induction sp s rule: sub_spaces.induct) (auto split: if_splits)

lemma sub_spaces_hd:
  "sub_spaces sp (c # cs) \<noteq> [] \<and> hd (sub_spaces sp (c # cs)) = (if sp c then 32 else c)"
  by (induction sp "c # cs" arbitrary: c cs rule: sub_spaces.induct) auto

lemma sin_dobles_Cons:
  "sin_dobles (c # s) \<longleftrightarrow> (s = [] \<or> \<not> (c = 32 \<and> hd s = 32)) \<and> sin_dobles s"
  by (cases s) auto

lemma sub_spaces_sin_dobles:
  "sp 32 \<Longrightarrow> sin_dobles (sub_spaces sp s)"
proof (induction sp s rule: sub_spaces.induct)
  case (3 sp c d cs)
  then show ?case
    using sub_spaces_hd [of sp d cs]
    by (auto simp: sin_dobles_Cons)
qed simp_all

lemma sin_dobles_append:
  "sin_dobles (xs @ ys) \<Longrightarrow> sin_dobles xs \<and> sin_dobles ys"
proof (induction xs rule: sin_dobles.induct)
  case (2 c)
  then show ?case by (cases ys) auto
qed auto

lemma sin_dobles_drop: "sin_dobles s \<Longrightarrow> sin_dobles (drop n s)"
  using sin_dobles_append [of "take n s" "drop n s"] by simp

lemma sin_dobles_take: "sin_dobles s \<Longrightarrow> sin_dobles (take n s)"
  using sin_dobles_append [of "take n s" "drop n s"] by simp

lemma strip_take_drop: "\<exists>n k. strip sp s = take n (drop k s)"
proof -
  let ?u = "dropWhile sp s"
  have u: "?u = drop (length (takeWhile sp s)) s"
    by (rule dropWhile_eq_drop)
  have "dropWhile sp (rev ?u) = drop (length (takeWhile sp (rev ?u))) (rev ?u)"
    by (rule dropWhile_eq_drop)
  then have "strip sp s = take (length ?u - length (takeWhile sp (rev ?u))) ?u"
    by (simp add: strip_def rev_drop)
  with u show ?thesis by metis
qed

lemma strip_extremos:
  assumes "strip sp s \<noteq> []"
  shows "\<not> sp (hd (strip sp s)) \<and> \<not> sp (last (strip sp s))"
proof -
  let ?u = "dropWhile sp s"
  let ?v = "dropWhile sp (rev ?u)"
  have v: "?v \<noteq> []" using assms by (simp add: strip_def)
  have u: "?u \<noteq> []"
  proof
    assume e: "?u = []"
    have "?v = []" unfolding e by simp
    with v show False by simp
  qed
  have l: "\<not> sp (hd ?v)" using v by (rule hd_dropWhile)
  have "last (strip sp s) = hd ?v" using v by (simp add: strip_def last_rev)
  with l have a: "\<not> sp (last (strip sp s))" by simp
  have "\<exists>n. ?v = drop n (rev ?u)" using dropWhile_eq_drop by blast
  then obtain n where n: "?v = drop n (rev ?u)" ..
  then have "strip sp s = take (length ?u - n) ?u" by (simp add: strip_def rev_drop)
  moreover have "length ?u - n > 0" using v n by auto
  ultimately have "hd (strip sp s) = hd ?u" by (cases ?u) (auto simp: take_Cons')
  moreover have "\<not> sp (hd ?u)" using u by (rule hd_dropWhile)
  ultimately show ?thesis using a by simp
qed

lemma strip_identidad:
  assumes "s = [] \<or> (\<not> sp (hd s) \<and> \<not> sp (last s))"
  shows "strip sp s = s"
proof (cases "s = []")
  case True
  then show ?thesis by (simp add: strip_def)
next
  case False
  with assms have h: "\<not> sp (hd s)" and l: "\<not> sp (last s)" by auto
  have "dropWhile sp s = s" using h False by (cases s) auto
  moreover have "dropWhile sp (rev s) = rev s"
    using l False by (cases "rev s") (auto simp: last_rev [symmetric] hd_rev)
  ultimately show ?thesis by (simp add: strip_def)
qed

lemma sub_spaces_identidad:
  assumes "\<forall>c\<in>set s. sp c \<longrightarrow> c = 32" and "sin_dobles s"
  shows "sub_spaces sp s = s"
  using assms by (induction sp s rule: sub_spaces.induct) auto

lemma normalizar_limpio:
  assumes ok: "unicode_ok U"
  shows "limpio (normalizar U s)"
proof -
  define t3 where "t3 = map (\<lambda>c. if retained_char U c then c else 32)
      (filter (\<lambda>c. \<not> is_Mn U c) (nfd U (str_lower U s)))"
  define t4 where "t4 = sub_spaces (is_space U) t3"
  have n: "normalizar U s = strip (is_space U) t4"
    by (simp add: normalizar_def t3_def t4_def Let_def)
  have sp32: "is_space U 32" using ok by (simp add: unicode_ok_def)
  have enye: "241 \<notin> set (nfd U (str_lower U s))" using ok by (simp add: unicode_ok_def)
  have c3: "basic_char c \<or> is_space U c" if "c \<in> set t3" for c
  proof -
    from that obtain c0 where c0: "c0 \<in> set (nfd U (str_lower U s))"
      and c: "c = (if retained_char U c0 then c0 else 32)"
      by (auto simp: t3_def)
    from c0 enye have "c0 \<noteq> 241" by auto
    with c show ?thesis
      by (auto simp: retained_char_def token_char_def basic_char_def)
  qed
  have c4: "basic_char c" if "c \<in> set t4" for c
    using sub_spaces_set [of c "is_space U" t3] that c3 by (auto simp: t4_def basic_char_def)
  have d4: "sin_dobles t4" unfolding t4_def using sp32 by (rule sub_spaces_sin_dobles)
  obtain n' k where st: "strip (is_space U) t4 = take n' (drop k t4)"
    using strip_take_drop by blast
  have "set (strip (is_space U) t4) \<subseteq> set t4"
    unfolding st by (meson set_drop_subset set_take_subset subset_trans)
  then have a: "list_all basic_char (strip (is_space U) t4)"
    using c4 by (auto simp: list_all_iff)
  have b: "sin_dobles (strip (is_space U) t4)"
    unfolding st using d4 by (simp add: sin_dobles_take sin_dobles_drop)
  have c: "strip (is_space U) t4 = [] \<or>
      (hd (strip (is_space U) t4) \<noteq> 32 \<and> last (strip (is_space U) t4) \<noteq> 32)"
    using strip_extremos [of "is_space U" t4] sp32 by auto
  show ?thesis unfolding n limpio_def using a b c by simp
qed

lemma normalizar_de_limpio:
  assumes ok: "unicode_ok U" and l: "limpio s"
  shows "normalizar U s = s"
proof -
  have b: "list_all basic_char s" and d: "sin_dobles s"
    and e: "s = [] \<or> (hd s \<noteq> 32 \<and> last s \<noteq> 32)"
    using l by (simp_all add: limpio_def)
  have lo: "str_lower U s = s" and nf: "nfd U s = s"
    using ok b by (simp_all add: unicode_ok_def)
  have mn: "\<forall>c\<in>set s. \<not> is_Mn U c"
    using ok b by (auto simp: unicode_ok_def list_all_iff)
  have sp: "\<forall>c\<in>set s. is_space U c \<longrightarrow> c = 32"
    using ok b by (auto simp: unicode_ok_def list_all_iff)
  have sp32: "is_space U 32" using ok by (simp add: unicode_ok_def)
  have re: "\<forall>c\<in>set s. retained_char U c"
    using b sp32 by (auto simp: list_all_iff basic_char_def retained_char_def token_char_def)
  have f: "filter (\<lambda>c. \<not> is_Mn U c) s = s" using mn by (simp add: filter_id_conv)
  have m: "map (\<lambda>c. if retained_char U c then c else 32) s = s"
    using re by (simp add: map_idI)
  have su: "sub_spaces (is_space U) s = s" using sp d by (rule sub_spaces_identidad)
  have ex: "s = [] \<or> (\<not> is_space U (hd s) \<and> \<not> is_space U (last s))"
  proof (cases "s = []")
    case False
    then have "hd s \<in> set s" "last s \<in> set s" by simp_all
    with sp e False show ?thesis by blast
  qed simp
  have st: "strip (is_space U) s = s" using ex by (rule strip_identidad)
  show ?thesis by (simp add: normalizar_def Let_def lo nf f m su st)
qed

lemma normalizar_idempotente:
  "unicode_ok U \<Longrightarrow> normalizar U (normalizar U s) = normalizar U s"
  by (simp add: normalizar_de_limpio normalizar_limpio)

lemma normalizar_sin_enye:
  assumes "unicode_ok U"
  shows "241 \<notin> set (normalizar U s)"
proof -
  have "list_all basic_char (normalizar U s)"
    using normalizar_limpio [OF assms, of s] by (simp add: limpio_def)
  then show ?thesis by (auto simp: list_all_iff basic_char_def)
qed


lemma semillas_limpias: "\<forall>pr\<in>set semillas. limpio (fst pr)"
  by (simp add: semillas_def limpio_def ustr_def basic_char_def)

lemma registros_guardar:
  assumes "guardar_entrada U db p r = Inr db'"
  shows "\<exists>i. registros db' = registros db @ [(i, normalizar U p, r)]"
  using assms
  by (cases db) (auto simp: guardar_entrada_def registros_def insertar_def Let_def)

lemma registros_iniciar: "\<exists>fs. registros (iniciar_db db) = registros db @ fs"
proof (cases "registros db = []")
  case True
  then show ?thesis by simp
next
  case False
  then show ?thesis by (simp add: iniciar_db_poblada)
qed

text \<open>
  C8 (stored questions are normalised). In every store the program can reach from a new
  database file, each row's question is its own normalisation. The seed questions are
  fixed points of \<open>normalizar\<close>; \<open>guardar_entrada\<close> appends one row whose question
  is the normalised raw question and leaves the other rows as they are; \<open>iniciar_db\<close>
  only appends. The Unicode database is any one that satisfies \<open>unicode_ok\<close>.
\<close>

theorem preguntas_normalizadas:
  assumes ok: "unicode_ok U" and alc: "alcanzable U db"
  shows "(\<forall>f\<in>set (registros db). normalizar U (fst (snd f)) = fst (snd f))
       \<and> (\<forall>pr\<in>set semillas. normalizar U (fst pr) = fst pr)
       \<and> (\<forall>p r db'. guardar_entrada U db p r = Inr db' \<longrightarrow>
             (\<exists>i. registros db' = registros db @ [(i, normalizar U p, r)]))
       \<and> (\<exists>fs. registros (iniciar_db db) = registros db @ fs)"
proof -
  have sem: "\<forall>pr\<in>set semillas. normalizar U (fst pr) = fst pr"
    using semillas_limpias normalizar_de_limpio [OF ok] by blast
  have inv: "\<forall>f\<in>set (registros db). normalizar U (fst (snd f)) = fst (snd f)"
    using alc
  proof (induction rule: alcanzable.induct)
    case nueva
    then show ?case by (simp add: registros_def)
  next
    case (iniciar db)
    show ?case
    proof (cases "registros db = []")
      case True
      then have m: "map snd (registros (iniciar_db db)) = semillas"
        by (rule iniciar_db_vacia)
      show ?thesis
      proof
        fix f assume "f \<in> set (registros (iniciar_db db))"
        then have "snd f \<in> set (map snd (registros (iniciar_db db)))" by simp
        with m have "snd f \<in> set semillas" by simp
        with sem show "normalizar U (fst (snd f)) = fst (snd f)" by blast
      qed
    next
      case False
      with iniciar.IH show ?thesis by (simp add: iniciar_db_poblada)
    qed
  next
    case (guardar db p r db')
    from registros_guardar [OF guardar.hyps(2)] obtain i where
      "registros db' = registros db @ [(i, normalizar U p, r)]" ..
    with guardar.IH show ?case
      by (auto simp: normalizar_idempotente [OF ok])
  qed
  from inv sem registros_guardar registros_iniciar show ?thesis by blast
qed

theorem preguntas_normalizadas_witness:
  "guardar_entrada latin1_db (iniciar_db None) pregunta_chiste respuesta_chiste = Inr kb_aprendida
   \<and> map (\<lambda>f. fst (snd f)) (registros kb_aprendida)
        = [ustr ''hola'', ustr ''como estas'', ustr ''de que te gustaria hablar'',
           ustr ''cuentame un chiste?'']
   \<and> list_all (\<lambda>f. normalizar latin1_db (fst (snd f)) = fst (snd f)) (registros kb_aprendida)"
proof -
  have g: "guardar_entrada latin1_db (iniciar_db None) pregunta_chiste respuesta_chiste
             = Inr kb_aprendida"
    by code_simp
  have r: "map (\<lambda>f. fst (snd f)) (registros kb_aprendida)
        = [ustr ''hola'', ustr ''como estas'', ustr ''de que te gustaria hablar'',
           ustr ''cuentame un chiste?'']"
    by (simp add: kb_aprendida_def tabla_semillas_def semillas_def insertar_def registros_def)
  have alc: "alcanzable latin1_db kb_aprendida"
    by (rule alcanzable.guardar [OF alcanzable.iniciar [OF alcanzable.nueva] g])
  show ?thesis
    using preguntas_normalizadas [OF latin1_db_ok alc] g r
    by (simp add: list_all_iff)
qed

text \<open>
  C3 (n-tilde). The code does not keep the letter: NFD splits code point 241 into \<open>n\<close>
  and the combining tilde, the tilde is dropped as a combining mark, and the character
  class that lists 241 never sees it. The text of code points 97, 241, 111 is normalised to
  \<open>ano\<close>, the same as the text \<open>ano\<close> itself; \<open>normalizar_sin_enye\<close> above shows
  that no normalised text contains 241.
\<close>

theorem normalizar_enye:
  "normalizar latin1_db [97, 241, 111] = [97, 110, 111]
   \<and> tokenizar latin1_db [97, 241, 111] = [[97, 110, 111]]
   \<and> normalizar latin1_db [97, 241, 111] = normalizar latin1_db (ustr ''ano'')"
  by code_simp

(*THMS*)

end
